theory Spec2Isabelle
  imports Complex_Main "HOL-Library.AList"
begin

section \<open>Python values, JSON documents and exceptions\<close>

text \<open>
  The client of \<^verbatim>\<open>src/jsonstore/client.py\<close> is a thin layer over two libraries:
  \<^verbatim>\<open>json\<close> (serialisation) and \<^verbatim>\<open>requests\<close> (HTTP). The values it handles are Python
  values; what travels over the wire is a JSON document.

  A Python float is kept as an opaque number (a rational, or one of the three special
  values that \<^verbatim>\<open>json\<close> reads and writes as \<^verbatim>\<open>Infinity\<close>, \<^verbatim>\<open>-Infinity\<close>, \<^verbatim>\<open>NaN\<close>);
  no float arithmetic is modelled. The keys of a dict are strings.

  A value is written as a tree. A container that contains itself (\<^verbatim>\<open>a = []; a.append(a)\<close>)
  is written with a back-reference: \<open>PBackref n\<close>, inside a list, tuple or dict, is the
  container \<open>n\<close> levels further out, the innermost one being level 0, so that the list
  \<open>a\<close> is \<open>PList [PBackref 0]\<close>. A container reached twice without a cycle is written
  twice. A back-reference that points beyond the outermost container is no Python value
  (\<open>well_scoped\<close> below).
\<close>

datatype pyfloat = Finite rat | PosInf | NegInf | NaN

datatype pyval =
    PNone
  | PBool bool
  | PInt int
  | PFloat pyfloat
  | PStr string
  | PList "pyval list"
  | PTuple "pyval list"
  | PDict "(string \<times> pyval) list"
  | PBytes string
  | PObject string
  | PBackref nat

datatype json =
    JNull
  | JBool bool
  | JInt int
  | JFloat pyfloat
  | JString string
  | JArray "json list"
  | JObject "(string \<times> json) list"

text \<open>
  The exception classes that occur. \<open>RequestException\<close> stands for any instance of
  \<^verbatim>\<open>requests.exceptions.RequestException\<close> (so also for \<^verbatim>\<open>HTTPError\<close>, \<^verbatim>\<open>Timeout\<close>,
  \<^verbatim>\<open>ConnectionError\<close>), \<open>ValueError\<close> for any instance of \<^verbatim>\<open>ValueError\<close> (so also for the
  JSON decode error). Messages are not modelled.
\<close>

datatype exn = RequestException | ValueError | KeyError | TypeError | JsonstoreError

subsection \<open>The operations of Python the client uses\<close>

text \<open>
  \<^verbatim>\<open>bool(v)\<close>, as \<^verbatim>\<open>not resp['ok']\<close> evaluates it. A back-reference is a container that
  holds at least the value in which the back-reference stands, so it is not empty.
\<close>

fun truthy :: "pyval \<Rightarrow> bool" where
  "truthy PNone = False"
| "truthy (PBool b) = b"
| "truthy (PInt i) = (i \<noteq> 0)"
| "truthy (PFloat f) = (f \<noteq> Finite 0)"
| "truthy (PStr s) = (s \<noteq> [])"
| "truthy (PList xs) = (xs \<noteq> [])"
| "truthy (PTuple xs) = (xs \<noteq> [])"
| "truthy (PDict kvs) = (kvs \<noteq> [])"
| "truthy (PBytes s) = (s \<noteq> [])"
| "truthy (PObject c) = True"
| "truthy (PBackref n) = True"

text \<open>\<^verbatim>\<open>p in s\<close> for two strings: \<open>p\<close> occurs in \<open>s\<close> as a contiguous run.\<close>

fun is_substring :: "string \<Rightarrow> string \<Rightarrow> bool" where
  "is_substring p [] = (p = [])"
| "is_substring p (c # cs) = (take (length p) (c # cs) = p \<or> is_substring p cs)"

text \<open>
  \<^verbatim>\<open>k in v\<close> for a string \<open>k\<close>: key membership in a dict, element membership in a list or
  tuple, substring in a string; a value that is no container raises \<^verbatim>\<open>TypeError\<close>.
  The client applies this and the subscript below only to what \<^verbatim>\<open>json.loads\<close> returned,
  a value as a whole: a back-reference does not stand there.
\<close>

fun contains :: "string \<Rightarrow> pyval \<Rightarrow> exn + bool" where
  "contains k (PDict kvs) = Inr (k \<in> set (map fst kvs))"
| "contains k (PList xs) = Inr (PStr k \<in> set xs)"
| "contains k (PTuple xs) = Inr (PStr k \<in> set xs)"
| "contains k (PStr s) = Inr (is_substring k s)"
| "contains k v = Inl TypeError"

text \<open>
  \<^verbatim>\<open>v[k]\<close> for a string \<open>k\<close>: the value of the key in a dict (\<^verbatim>\<open>KeyError\<close> when absent);
  every other value raises \<^verbatim>\<open>TypeError\<close> (indices must be integers, or the value is not
  subscriptable).
\<close>

fun subscript :: "pyval \<Rightarrow> string \<Rightarrow> exn + pyval" where
  "subscript (PDict kvs) k = (case map_of kvs k of None \<Rightarrow> Inl KeyError | Some v \<Rightarrow> Inr v)"
| "subscript v k = Inl TypeError"

subsection \<open>The json library\<close>

text \<open>The first exception of a list of results, or all the values.\<close>

fun sequence :: "('e + 'a) list \<Rightarrow> 'e + 'a list" where
  "sequence [] = Inr []"
| "sequence (r # rs) =
     (case r of
        Inl e \<Rightarrow> Inl e
      | Inr x \<Rightarrow> (case sequence rs of Inl e \<Rightarrow> Inl e | Inr xs \<Rightarrow> Inr (x # xs)))"

text \<open>
  \<^verbatim>\<open>json.dumps(data)\<close> with the default arguments: \<^verbatim>\<open>None\<close>, booleans, numbers and strings
  are written as they are, a list and a tuple both as an array, a dict as an object; any
  other object raises \<^verbatim>\<open>TypeError\<close> (\<^verbatim>\<open>Object of type ... is not JSON serializable\<close>). A
  container met again while it is being written raises \<^verbatim>\<open>ValueError\<close>
  (\<^verbatim>\<open>Circular reference detected\<close>). The members of a container are written in order, so
  the first of them that raises decides the exception. The result is the document the
  text denotes.
\<close>

fun dumps :: "pyval \<Rightarrow> exn + json" where
  "dumps PNone = Inr JNull"
| "dumps (PBool b) = Inr (JBool b)"
| "dumps (PInt i) = Inr (JInt i)"
| "dumps (PFloat f) = Inr (JFloat f)"
| "dumps (PStr s) = Inr (JString s)"
| "dumps (PList xs) = map_sum id JArray (sequence (map dumps xs))"
| "dumps (PTuple xs) = map_sum id JArray (sequence (map dumps xs))"
| "dumps (PDict kvs) =
     map_sum id JObject (sequence (map (\<lambda>(k, v). map_sum id (Pair k) (dumps v)) kvs))"
| "dumps (PBytes s) = Inl TypeError"
| "dumps (PObject c) = Inl TypeError"
| "dumps (PBackref n) = Inl ValueError"

text \<open>
  \<^verbatim>\<open>json.loads\<close> on a document: an array becomes a list, an object a dict in which a
  repeated key keeps its first position and its last value.
\<close>

definition dict_of :: "(string \<times> pyval) list \<Rightarrow> (string \<times> pyval) list" where
  "dict_of kvs = foldl (\<lambda>d (k, v). AList.update k v d) [] kvs"

fun loads :: "json \<Rightarrow> pyval" where
  "loads JNull = PNone"
| "loads (JBool b) = PBool b"
| "loads (JInt i) = PInt i"
| "loads (JFloat f) = PFloat f"
| "loads (JString s) = PStr s"
| "loads (JArray js) = PList (map loads js)"
| "loads (JObject kvs) = PDict (dict_of (map (\<lambda>(k, j). (k, loads j)) kvs))"

section \<open>The requests library and the world outside the client\<close>

datatype verb = GET | POST | PUT | DELETE

text \<open>
  One call of \<^verbatim>\<open>requests.get\<close>, \<^verbatim>\<open>requests.post\<close>, \<^verbatim>\<open>requests.put\<close> or
  \<^verbatim>\<open>requests.delete\<close>: the URL and the keyword arguments. \<open>req_data\<close> and
  \<open>req_timeout\<close> are \<open>None\<close> when the keyword is not given.
\<close>

record request =
  req_verb :: verb
  req_url :: string
  req_headers :: "(string \<times> string) list"
  req_data :: "json option"
  req_timeout :: "pyval option"

text \<open>
  A \<^verbatim>\<open>requests.Response\<close>: its status code and its body, \<open>None\<close> when the body is not a
  JSON document.
\<close>

record response =
  status_code :: int
  content :: "json option"

text \<open>
  \<^verbatim>\<open>Response.raise_for_status()\<close> of the requests library: it builds an error message
  under \<^verbatim>\<open>400 <= self.status_code < 500\<close> (client error) and under
  \<^verbatim>\<open>500 <= self.status_code < 600\<close> (server error), and raises \<^verbatim>\<open>HTTPError\<close>, a
  \<^verbatim>\<open>RequestException\<close>, when there is a message; for every other status it returns.
\<close>

definition raise_for_status :: "response \<Rightarrow> exn + unit" where
  "raise_for_status r =
     (if 400 \<le> status_code r \<and> status_code r < 600 then Inl RequestException else Inr ())"

text \<open>
  \<^verbatim>\<open>Response.json()\<close>: the body read by \<^verbatim>\<open>json.loads\<close>; a body that is no JSON document
  raises the decode error, a \<^verbatim>\<open>ValueError\<close>.
\<close>

definition response_json :: "response \<Rightarrow> exn + pyval" where
  "response_json r = (case content r of None \<Rightarrow> Inl ValueError | Some j \<Rightarrow> Inr (loads j))"

text \<open>
  What answers a call: the library, the network and the remote service together, as a
  function of the request and of the state \<open>'s\<close> of the outside, giving the response or
  the exception the call raises.
\<close>

type_synonym 's service = "request \<Rightarrow> 's \<Rightarrow> (exn + response) \<times> 's"

section \<open>The client\<close>

text \<open>The attributes \<^verbatim>\<open>__base_url\<close> and \<^verbatim>\<open>__headers\<close> of a \<^verbatim>\<open>Client\<close>.\<close>

record client =
  base_url :: string
  headers :: "(string \<times> string) list"

text \<open>
  The state a method runs in: the object \<open>self\<close>, the calls made to the requests library
  so far (oldest first), and the state of the outside.
\<close>

record 's state =
  self :: client
  sent :: "request list"
  remote :: 's

definition DEFAULT_TIMEOUT_SECONDS :: pyval where
  "DEFAULT_TIMEOUT_SECONDS = PInt 5"

text \<open>\<^verbatim>\<open>Client.__init__\<close>.\<close>

definition Client :: "string \<Rightarrow> client" where
  "Client token =
     \<lparr>base_url = ''https://www.jsonstore.io/'' @ token,
      headers = [(''Accept'', ''application/json''), (''Content-type'', ''application/json'')]\<rparr>"

text \<open>A freshly constructed client, before any call.\<close>

definition start :: "string \<Rightarrow> 's \<Rightarrow> 's state" where
  "start token s = \<lparr>self = Client token, sent = [], remote = s\<rparr>"

text \<open>\<^verbatim>\<open>Client.__create_url\<close>: \<^verbatim>\<open>'{}/{}'.format(self.__base_url, key)\<close>.\<close>

definition create_url :: "client \<Rightarrow> string \<Rightarrow> string" where
  "create_url c key = base_url c @ ''/'' @ key"

text \<open>A parameter with a default: \<open>None\<close> is the caller leaving the argument out.\<close>

definition arg_or_default :: "'a option \<Rightarrow> 'a \<Rightarrow> 'a" where
  "arg_or_default arg dflt = (case arg of None \<Rightarrow> dflt | Some a \<Rightarrow> a)"

text \<open>A call of the requests library: the request is recorded and the outside answers.\<close>

definition requests_call :: "'s service \<Rightarrow> request \<Rightarrow> 's state \<Rightarrow> (exn + response) \<times> 's state" where
  "requests_call serve req \<sigma> =
     (case serve req (remote \<sigma>) of
        (out, s') \<Rightarrow> (out, \<sigma>\<lparr>sent := sent \<sigma> @ [req], remote := s'\<rparr>))"

text \<open>
  The argument of \<^verbatim>\<open>__check_response\<close> is any object; the first test is
  \<^verbatim>\<open>isinstance(response, requests.Response)\<close>. What the requests library returns is a
  \<^verbatim>\<open>Response\<close>, so the four methods pass a \<open>ResponseObj\<close>.
\<close>

datatype pyobj = ResponseObj response | OtherObj pyval

text \<open>
  \<^verbatim>\<open>Client.__check_response\<close>. The condition \<^verbatim>\<open>'ok' not in resp or not resp['ok']\<close> is
  evaluated left to right: the subscript is reached only when \<^verbatim>\<open>'ok' in resp\<close> holds.
\<close>

definition check_response :: "pyobj \<Rightarrow> exn + pyval" where
  "check_response obj =
     (case obj of
        OtherObj v \<Rightarrow> Inl TypeError
      | ResponseObj response \<Rightarrow>
          (case raise_for_status response of
             Inl e \<Rightarrow> Inl e
           | Inr u \<Rightarrow>
               (case response_json response of
                  Inl e \<Rightarrow> Inl e
                | Inr resp \<Rightarrow>
                    (case contains ''ok'' resp of
                       Inl e \<Rightarrow> Inl e
                     | Inr has_ok \<Rightarrow>
                         if \<not> has_ok then Inl JsonstoreError
                         else (case subscript resp ''ok'' of
                                 Inl e \<Rightarrow> Inl e
                               | Inr ok \<Rightarrow> if \<not> truthy ok then Inl JsonstoreError else Inr resp)))))"

text \<open>
  The handler every method ends with:
  \<^verbatim>\<open>except (RequestException, ValueError, KeyError) as e: raise JsonstoreError(str(e))\<close>.
  An exception of another class passes through.
\<close>

fun except_clause :: "exn + 'a \<Rightarrow> exn + 'a" where
  "except_clause (Inl RequestException) = Inl JsonstoreError"
| "except_clause (Inl ValueError) = Inl JsonstoreError"
| "except_clause (Inl KeyError) = Inl JsonstoreError"
| "except_clause r = r"

text \<open>\<^verbatim>\<open>Client.get\<close>. The call of \<^verbatim>\<open>requests.get\<close> is given no \<^verbatim>\<open>timeout\<close>.\<close>

definition get :: "'s service \<Rightarrow> string \<Rightarrow> pyval option \<Rightarrow> 's state \<Rightarrow> (exn + pyval) \<times> 's state" where
  "get serve key timeout_arg \<sigma> =
     (let timeout = arg_or_default timeout_arg DEFAULT_TIMEOUT_SECONDS;
          url = create_url (self \<sigma>) key;
          (resp, \<sigma>') = requests_call serve
             \<lparr>req_verb = GET, req_url = url, req_headers = headers (self \<sigma>),
              req_data = None, req_timeout = None\<rparr> \<sigma>
      in (except_clause
            (case resp of
               Inl e \<Rightarrow> Inl e
             | Inr r \<Rightarrow>
                 (case check_response (ResponseObj r) of
                    Inl e \<Rightarrow> Inl e
                  | Inr json_resp \<Rightarrow> subscript json_resp ''result'')),
          \<sigma>'))"

text \<open>
  \<^verbatim>\<open>Client.post\<close>. \<^verbatim>\<open>json.dumps(data)\<close> stands before the \<^verbatim>\<open>try\<close>: what it raises leaves
  the method as it is, and the call of \<^verbatim>\<open>requests.post\<close> is not reached. The method
  returns \<^verbatim>\<open>None\<close>.
\<close>

definition post :: "'s service \<Rightarrow> string \<Rightarrow> pyval \<Rightarrow> pyval option \<Rightarrow> 's state \<Rightarrow> (exn + pyval) \<times> 's state" where
  "post serve key data timeout_arg \<sigma> =
     (let timeout = arg_or_default timeout_arg DEFAULT_TIMEOUT_SECONDS;
          url = create_url (self \<sigma>) key
      in case dumps data of
           Inl e \<Rightarrow> (Inl e, \<sigma>)
         | Inr json_data \<Rightarrow>
             (let (resp, \<sigma>') = requests_call serve
                    \<lparr>req_verb = POST, req_url = url, req_headers = headers (self \<sigma>),
                     req_data = Some json_data, req_timeout = Some timeout\<rparr> \<sigma>
              in (except_clause
                    (case resp of
                       Inl e \<Rightarrow> Inl e
                     | Inr r \<Rightarrow>
                         (case check_response (ResponseObj r) of
                            Inl e \<Rightarrow> Inl e
                          | Inr json_resp \<Rightarrow> Inr PNone)),
                  \<sigma>')))"

text \<open>\<^verbatim>\<open>Client.put\<close>: as \<^verbatim>\<open>post\<close>, with \<^verbatim>\<open>requests.put\<close>.\<close>

definition put :: "'s service \<Rightarrow> string \<Rightarrow> pyval \<Rightarrow> pyval option \<Rightarrow> 's state \<Rightarrow> (exn + pyval) \<times> 's state" where
  "put serve key data timeout_arg \<sigma> =
     (let timeout = arg_or_default timeout_arg DEFAULT_TIMEOUT_SECONDS;
          url = create_url (self \<sigma>) key
      in case dumps data of
           Inl e \<Rightarrow> (Inl e, \<sigma>)
         | Inr json_data \<Rightarrow>
             (let (resp, \<sigma>') = requests_call serve
                    \<lparr>req_verb = PUT, req_url = url, req_headers = headers (self \<sigma>),
                     req_data = Some json_data, req_timeout = Some timeout\<rparr> \<sigma>
              in (except_clause
                    (case resp of
                       Inl e \<Rightarrow> Inl e
                     | Inr r \<Rightarrow>
                         (case check_response (ResponseObj r) of
                            Inl e \<Rightarrow> Inl e
                          | Inr json_resp \<Rightarrow> Inr PNone)),
                  \<sigma>')))"

text \<open>\<^verbatim>\<open>Client.delete\<close>. The call of \<^verbatim>\<open>requests.delete\<close> is given the \<^verbatim>\<open>timeout\<close>.\<close>

definition delete :: "'s service \<Rightarrow> string \<Rightarrow> pyval option \<Rightarrow> 's state \<Rightarrow> (exn + pyval) \<times> 's state" where
  "delete serve key timeout_arg \<sigma> =
     (let timeout = arg_or_default timeout_arg DEFAULT_TIMEOUT_SECONDS;
          url = create_url (self \<sigma>) key;
          (resp, \<sigma>') = requests_call serve
             \<lparr>req_verb = DELETE, req_url = url, req_headers = headers (self \<sigma>),
              req_data = None, req_timeout = Some timeout\<rparr> \<sigma>
      in (except_clause
            (case resp of
               Inl e \<Rightarrow> Inl e
             | Inr r \<Rightarrow>
                 (case check_response (ResponseObj r) of
                    Inl e \<Rightarrow> Inl e
                  | Inr json_resp \<Rightarrow> Inr PNone)),
          \<sigma>'))"

subsection \<open>Calls, and sequences of calls\<close>

text \<open>One call of a method of the client, with its arguments.\<close>

datatype call =
    Get string "pyval option"
  | Post string pyval "pyval option"
  | Put string pyval "pyval option"
  | Delete string "pyval option"

fun perform :: "'s service \<Rightarrow> call \<Rightarrow> 's state \<Rightarrow> (exn + pyval) \<times> 's state" where
  "perform serve (Get key t) \<sigma> = get serve key t \<sigma>"
| "perform serve (Post key d t) \<sigma> = post serve key d t \<sigma>"
| "perform serve (Put key d t) \<sigma> = put serve key d t \<sigma>"
| "perform serve (Delete key t) \<sigma> = delete serve key t \<sigma>"

text \<open>
  A caller that makes one call after the other on the same client, going on after an
  exception.
\<close>

fun run :: "'s service \<Rightarrow> call list \<Rightarrow> 's state \<Rightarrow> 's state" where
  "run serve [] \<sigma> = \<sigma>"
| "run serve (c # cs) \<sigma> = run serve cs (snd (perform serve c \<sigma>))"

section \<open>Notions the properties are stated with\<close>

text \<open>
  The trees that are Python values: every back-reference points to a container around it.
  \<open>well_scoped n v\<close> is for a value \<open>v\<close> that stands inside \<open>n\<close> containers.
\<close>

fun well_scoped :: "nat \<Rightarrow> pyval \<Rightarrow> bool" where
  "well_scoped n (PBackref i) = (i < n)"
| "well_scoped n (PList xs) = list_all (well_scoped (Suc n)) xs"
| "well_scoped n (PTuple xs) = list_all (well_scoped (Suc n)) xs"
| "well_scoped n (PDict kvs) = list_all (\<lambda>(k, v). well_scoped (Suc n) v) kvs"
| "well_scoped n v = True"

text \<open>The values without a container that contains itself.\<close>

fun acyclic_val :: "pyval \<Rightarrow> bool" where
  "acyclic_val (PBackref i) = False"
| "acyclic_val (PList xs) = list_all acyclic_val xs"
| "acyclic_val (PTuple xs) = list_all acyclic_val xs"
| "acyclic_val (PDict kvs) = list_all (\<lambda>(k, v). acyclic_val v) kvs"
| "acyclic_val v = True"

text \<open>
  The values in which every object is of a type of the conversion table of the json
  library: \<^verbatim>\<open>None\<close>, booleans, numbers, strings, lists, tuples and dicts.
\<close>

fun supported :: "pyval \<Rightarrow> bool" where
  "supported (PBytes s) = False"
| "supported (PObject c) = False"
| "supported (PList xs) = list_all supported xs"
| "supported (PTuple xs) = list_all supported xs"
| "supported (PDict kvs) = list_all (\<lambda>(k, v). supported v) kvs"
| "supported v = True"

text \<open>
  The values \<^verbatim>\<open>json.dumps\<close> accepts: \<^verbatim>\<open>None\<close>, booleans, numbers, strings, and lists,
  tuples and dicts of such values, none of them containing itself.
\<close>

fun serializable :: "pyval \<Rightarrow> bool" where
  "serializable (PList xs) = list_all serializable xs"
| "serializable (PTuple xs) = list_all serializable xs"
| "serializable (PDict kvs) = list_all (\<lambda>(k, v). serializable v) kvs"
| "serializable (PBytes s) = False"
| "serializable (PObject c) = False"
| "serializable (PBackref n) = False"
| "serializable v = True"

text \<open>
  The values a JSON document stands for one to one: the serializable values without a
  tuple anywhere, and without the three floats that are no JSON numbers. (The keys of a
  dict are distinct, as in every Python dict.)
\<close>

fun is_finite :: "pyfloat \<Rightarrow> bool" where
  "is_finite (Finite q) = True"
| "is_finite f = False"

fun json_native :: "pyval \<Rightarrow> bool" where
  "json_native (PFloat f) = is_finite f"
| "json_native (PList xs) = list_all json_native xs"
| "json_native (PTuple xs) = False"
| "json_native (PDict kvs) = (distinct (map fst kvs) \<and> list_all (\<lambda>(k, v). json_native v) kvs)"
| "json_native (PBytes s) = False"
| "json_native (PObject c) = False"
| "json_native (PBackref n) = False"
| "json_native v = True"

text \<open>The calls of the requests library that a method call made: what the log gained.\<close>

definition issued :: "'s state \<Rightarrow> (exn + pyval) \<times> 's state \<Rightarrow> request list" where
  "issued \<sigma> res = drop (length (sent \<sigma>)) (sent (snd res))"

text \<open>An outside that answers every request with the same response, or never answers.\<close>

definition answering :: "response \<Rightarrow> 's service" where
  "answering r = (\<lambda>req s. (Inr r, s))"

definition unreachable :: "'s service" where
  "unreachable = (\<lambda>req s. (Inl RequestException, s))"

text \<open>
  The assumption of the round trip: a remote service that keeps, for every URL, the
  document last sent there by POST or PUT, forgets it on DELETE, and on GET returns it as
  \<^verbatim>\<open>result\<close> of the envelope (\<^verbatim>\<open>null\<close> when it holds none). Its success responses are
  those of the wire protocol: \<^verbatim>\<open>ok\<close> true, and \<^verbatim>\<open>result\<close> present for GET only. The service
  is not part of the repository; it stands for the remote side the client talks to.
\<close>

definition envelope :: "json option \<Rightarrow> response" where
  "envelope result =
     \<lparr>status_code = 200,
      content = Some (JObject ((case result of None \<Rightarrow> [] | Some j \<Rightarrow> [(''result'', j)]) @
                               [(''ok'', JBool True)]))\<rparr>"

definition faithful_store :: "(string \<Rightarrow> json option) service" where
  "faithful_store req db =
     (case req_verb req of
        GET \<Rightarrow>
          (Inr (envelope (Some (case db (req_url req) of None \<Rightarrow> JNull | Some j \<Rightarrow> j))), db)
      | POST \<Rightarrow>
          (case req_data req of
             None \<Rightarrow> (Inr \<lparr>status_code = 400, content = Some (JObject [(''ok'', JBool False)])\<rparr>, db)
           | Some j \<Rightarrow> (Inr (envelope None), db(req_url req \<mapsto> j)))
      | PUT \<Rightarrow>
          (case req_data req of
             None \<Rightarrow> (Inr \<lparr>status_code = 400, content = Some (JObject [(''ok'', JBool False)])\<rparr>, db)
           | Some j \<Rightarrow> (Inr (envelope None), db(req_url req \<mapsto> j)))
      | DELETE \<Rightarrow> (Inr (envelope None), db(req_url req := None)))"

section \<open>Properties\<close>

subsection \<open>Serialisation\<close>

lemma sequence_all_Inr:
  "(\<And>r. r \<in> set rs \<Longrightarrow> \<exists>x. r = Inr x) \<Longrightarrow> \<exists>xs. sequence rs = Inr xs"
  by (induction rs) (auto split: sum.splits)

lemma sequence_some_Inl:
  "Inl e \<in> set rs \<Longrightarrow> \<exists>e'. sequence rs = Inl e' \<and> Inl e' \<in> set rs"
  by (induction rs) (auto split: sum.splits)

lemma sequence_map_Inl:
  "sequence (map f xs) = Inl e \<Longrightarrow> \<exists>x \<in> set xs. f x = Inl e"
  by (induction xs) (auto split: sum.splits)

lemma map_sum_Inl: "map_sum id g r = Inl e \<Longrightarrow> r = Inl e"
  by (cases r) auto

lemma dumps_list_Inl:
  "dumps (PList xs) = Inl e \<Longrightarrow> \<exists>x \<in> set xs. dumps x = Inl e"
  by (simp add: sequence_map_Inl map_sum_Inl)

lemma dumps_tuple_Inl:
  "dumps (PTuple xs) = Inl e \<Longrightarrow> \<exists>x \<in> set xs. dumps x = Inl e"
  by (simp add: sequence_map_Inl map_sum_Inl)

lemma dumps_dict_Inl:
  assumes "dumps (PDict kvs) = Inl e"
  shows "\<exists>k v. (k, v) \<in> set kvs \<and> dumps v = Inl e"
proof -
  from assms have "sequence (map (\<lambda>(k, v). map_sum id (Pair k) (dumps v)) kvs) = Inl e"
    by (simp add: map_sum_Inl)
  from sequence_map_Inl [OF this] obtain kv where kv: "kv \<in> set kvs"
    and e: "(\<lambda>(k, v). map_sum id (Pair k) (dumps v)) kv = Inl e"
    by (rule bexE)
  obtain k v where "kv = (k, v)" by (cases kv)
  with kv e have "(k, v) \<in> set kvs" "dumps v = Inl e"
    by (simp_all add: map_sum_Inl)
  then show ?thesis by blast
qed


text \<open>\<^verbatim>\<open>json.dumps\<close> raises \<^verbatim>\<open>TypeError\<close> or \<^verbatim>\<open>ValueError\<close>, nothing else.\<close>

lemma dumps_Inl: "dumps v = Inl e \<Longrightarrow> e = TypeError \<or> e = ValueError"
proof (induction v arbitrary: e)
  case (PList xs)
  from dumps_list_Inl [OF PList.prems] obtain x where "x \<in> set xs" "dumps x = Inl e"
    by (rule bexE)
  then show ?case by (rule PList.IH)
next
  case (PTuple xs)
  from dumps_tuple_Inl [OF PTuple.prems] obtain x where "x \<in> set xs" "dumps x = Inl e"
    by (rule bexE)
  then show ?case by (rule PTuple.IH)
next
  case (PDict kvs)
  from dumps_dict_Inl [OF PDict.prems] obtain k x where "(k, x) \<in> set kvs" "dumps x = Inl e"
    by blast
  then show ?case using PDict.IH [of "(k, x)" x e] by simp
qed auto

text \<open>Without a container that contains itself, the exception is \<^verbatim>\<open>TypeError\<close>.\<close>

lemma dumps_Inl_acyclic: "acyclic_val v \<Longrightarrow> dumps v = Inl e \<Longrightarrow> e = TypeError"
proof (induction v arbitrary: e)
  case (PList xs)
  from dumps_list_Inl [OF PList.prems(2)] obtain x where x: "x \<in> set xs" "dumps x = Inl e"
    by (rule bexE)
  from PList.prems(1) x(1) have "acyclic_val x" by (simp add: list_all_iff)
  with x show ?case using PList.IH by blast
next
  case (PTuple xs)
  from dumps_tuple_Inl [OF PTuple.prems(2)] obtain x where x: "x \<in> set xs" "dumps x = Inl e"
    by (rule bexE)
  from PTuple.prems(1) x(1) have "acyclic_val x" by (simp add: list_all_iff)
  with x show ?case using PTuple.IH by blast
next
  case (PDict kvs)
  from dumps_dict_Inl [OF PDict.prems(2)] obtain k x where x: "(k, x) \<in> set kvs" "dumps x = Inl e"
    by blast
  from PDict.prems(1) x(1) have "acyclic_val x" by (auto simp: list_all_iff)
  with x show ?case using PDict.IH [of "(k, x)" x e] by simp
qed auto

text \<open>Without an object of an unsupported type, the exception is \<^verbatim>\<open>ValueError\<close>.\<close>

lemma dumps_Inl_supported: "supported v \<Longrightarrow> dumps v = Inl e \<Longrightarrow> e = ValueError"
proof (induction v arbitrary: e)
  case (PList xs)
  from dumps_list_Inl [OF PList.prems(2)] obtain x where x: "x \<in> set xs" "dumps x = Inl e"
    by (rule bexE)
  from PList.prems(1) x(1) have "supported x" by (simp add: list_all_iff)
  with x show ?case using PList.IH by blast
next
  case (PTuple xs)
  from dumps_tuple_Inl [OF PTuple.prems(2)] obtain x where x: "x \<in> set xs" "dumps x = Inl e"
    by (rule bexE)
  from PTuple.prems(1) x(1) have "supported x" by (simp add: list_all_iff)
  with x show ?case using PTuple.IH by blast
next
  case (PDict kvs)
  from dumps_dict_Inl [OF PDict.prems(2)] obtain k x where x: "(k, x) \<in> set kvs" "dumps x = Inl e"
    by blast
  from PDict.prems(1) x(1) have "supported x" by (auto simp: list_all_iff)
  with x show ?case using PDict.IH [of "(k, x)" x e] by simp
qed auto


text \<open>It returns a document exactly on the serializable values.\<close>

lemma dumps_serializable: "serializable v \<Longrightarrow> \<exists>j. dumps v = Inr j"
proof (induction v)
  case (PList xs)
  then have "\<exists>js. sequence (map dumps xs) = Inr js"
    by (intro sequence_all_Inr) (auto simp: list_all_iff)
  then show ?case by auto
next
  case (PTuple xs)
  then have "\<exists>js. sequence (map dumps xs) = Inr js"
    by (intro sequence_all_Inr) (auto simp: list_all_iff)
  then show ?case by auto
next
  case (PDict kvs)
  then have "\<exists>js. sequence (map (\<lambda>(k, v). map_sum id (Pair k) (dumps v)) kvs) = Inr js"
    by (intro sequence_all_Inr) (fastforce simp: list_all_iff)
  then show ?case by auto
qed auto

lemma dumps_not_serializable: "\<not> serializable v \<Longrightarrow> \<exists>e. dumps v = Inl e"
proof (induction v)
  case (PList xs)
  then obtain x where "x \<in> set xs" "\<exists>e. dumps x = Inl e" by (auto simp: list_all_iff)
  then obtain e where "Inl e \<in> set (map dumps xs)" by force
  from sequence_some_Inl [OF this] obtain e' where "sequence (map dumps xs) = Inl e'" by blast
  then show ?case by simp
next
  case (PTuple xs)
  then obtain x where "x \<in> set xs" "\<exists>e. dumps x = Inl e" by (auto simp: list_all_iff)
  then obtain e where "Inl e \<in> set (map dumps xs)" by force
  from sequence_some_Inl [OF this] obtain e' where "sequence (map dumps xs) = Inl e'" by blast
  then show ?case by simp
next
  case (PDict kvs)
  then obtain k x where "(k, x) \<in> set kvs" "\<exists>e. dumps x = Inl e"
    by (fastforce simp: list_all_iff)
  then obtain e where "Inl e \<in> set (map (\<lambda>(k, v). map_sum id (Pair k) (dumps v)) kvs)" by force
  from sequence_some_Inl [OF this] obtain e' where
    "sequence (map (\<lambda>(k, v). map_sum id (Pair k) (dumps v)) kvs) = Inl e'" by blast
  then show ?case by simp
qed auto

lemma serializable_iff_dumps: "serializable d \<longleftrightarrow> (\<exists>j. dumps d = Inr j)"
  using dumps_serializable dumps_not_serializable by force


text \<open>
  A value is rejected by \<^verbatim>\<open>json.dumps\<close> for one of two reasons: an object of an unsupported
  type, or a container that contains itself.
\<close>

lemma serializable_iff: "serializable v \<longleftrightarrow> acyclic_val v \<and> supported v"
proof (induction v)
  case (PList xs)
  then show ?case by (auto simp: list_all_iff)
next
  case (PTuple xs)
  then show ?case by (auto simp: list_all_iff)
next
  case (PDict kvs)
  have "serializable v \<longleftrightarrow> acyclic_val v \<and> supported v" if "(k, v) \<in> set kvs" for k v
    using PDict.IH [of "(k, v)" v] that by simp
  then show ?case by (auto simp: list_all_iff)
qed auto

text \<open>What \<^verbatim>\<open>json.loads\<close> returns is a tree: it holds no back-reference.\<close>

lemma update_all:
  "P (k, v) \<Longrightarrow> list_all P al \<Longrightarrow> list_all P (AList.update k v al)"
  by (induction al) auto

lemma foldl_update_all:
  "list_all P acc \<Longrightarrow> list_all P kvs \<Longrightarrow>
   list_all P (foldl (\<lambda>d (k, v). AList.update k v d) acc kvs)"
proof (induction kvs arbitrary: acc)
  case Nil
  then show ?case by simp
next
  case (Cons kv kvs)
  obtain k v where kv: "kv = (k, v)" by (cases kv)
  from Cons.prems kv have "list_all P (AList.update k v acc)" by (simp add: update_all)
  moreover from Cons.prems have "list_all P kvs" by simp
  ultimately show ?case using Cons.IH by (simp add: kv)
qed

lemma dict_of_all: "list_all P kvs \<Longrightarrow> list_all P (dict_of kvs)"
  by (simp add: dict_of_def foldl_update_all)

lemma loads_acyclic: "acyclic_val (loads j)"
proof (induction j)
  case (JArray js)
  then show ?case by (simp add: list_all_iff)
next
  case (JObject kvs)
  have "acyclic_val (loads j)" if "(k, j) \<in> set kvs" for k j
    using JObject.IH [of "(k, j)" j] that by simp
  then have "list_all (\<lambda>(k, v). acyclic_val v) (map (\<lambda>(k, j). (k, loads j)) kvs)"
    by (auto simp: list_all_iff)
  then show ?case by (simp add: dict_of_all)
qed auto

subsection \<open>What a method call sends, and what it leaves alone\<close>

lemma issued_get:
  "issued \<sigma> (get serve key t \<sigma>) =
     [\<lparr>req_verb = GET, req_url = create_url (self \<sigma>) key, req_headers = headers (self \<sigma>),
       req_data = None, req_timeout = None\<rparr>]"
  by (simp add: issued_def get_def requests_call_def Let_def split: prod.splits)

lemma issued_delete:
  "issued \<sigma> (delete serve key t \<sigma>) =
     [\<lparr>req_verb = DELETE, req_url = create_url (self \<sigma>) key, req_headers = headers (self \<sigma>),
       req_data = None, req_timeout = Some (arg_or_default t DEFAULT_TIMEOUT_SECONDS)\<rparr>]"
  by (simp add: issued_def delete_def requests_call_def Let_def split: prod.splits)

lemma issued_post:
  "issued \<sigma> (post serve key d t \<sigma>) =
     (case dumps d of
        Inl e \<Rightarrow> []
      | Inr j \<Rightarrow>
          [\<lparr>req_verb = POST, req_url = create_url (self \<sigma>) key, req_headers = headers (self \<sigma>),
            req_data = Some j, req_timeout = Some (arg_or_default t DEFAULT_TIMEOUT_SECONDS)\<rparr>])"
  by (simp add: issued_def post_def requests_call_def Let_def split: prod.splits sum.splits)

lemma issued_put:
  "issued \<sigma> (put serve key d t \<sigma>) =
     (case dumps d of
        Inl e \<Rightarrow> []
      | Inr j \<Rightarrow>
          [\<lparr>req_verb = PUT, req_url = create_url (self \<sigma>) key, req_headers = headers (self \<sigma>),
            req_data = Some j, req_timeout = Some (arg_or_default t DEFAULT_TIMEOUT_SECONDS)\<rparr>])"
  by (simp add: issued_def put_def requests_call_def Let_def split: prod.splits sum.splits)

lemma sent_perform: "sent (snd (perform serve c \<sigma>)) = sent \<sigma> @ issued \<sigma> (perform serve c \<sigma>)"
  by (cases c)
     (simp_all add: issued_def get_def post_def put_def delete_def requests_call_def Let_def
        split: prod.splits sum.splits)

lemma self_perform: "self (snd (perform serve c \<sigma>)) = self \<sigma>"
  by (cases c)
     (simp_all add: get_def post_def put_def delete_def requests_call_def Let_def
        split: prod.splits sum.splits)

lemma headers_perform:
  "r \<in> set (issued \<sigma> (perform serve c \<sigma>)) \<Longrightarrow> req_headers r = headers (self \<sigma>)"
  by (cases c) (auto simp: issued_get issued_delete issued_post issued_put split: sum.splits)

lemma run_keeps_client:
  "self (run serve cs \<sigma>) = self \<sigma> \<and>
   (\<forall>r \<in> set (sent (run serve cs \<sigma>)). r \<in> set (sent \<sigma>) \<or> req_headers r = headers (self \<sigma>))"
proof (induction cs arbitrary: \<sigma>)
  case Nil
  show ?case by simp
next
  case (Cons c cs)
  let ?\<sigma>1 = "snd (perform serve c \<sigma>)"
  have self1: "self ?\<sigma>1 = self \<sigma>" by (rule self_perform)
  have "r \<in> set (sent \<sigma>) \<or> req_headers r = headers (self \<sigma>)"
    if "r \<in> set (sent (run serve cs ?\<sigma>1))" for r
  proof -
    from Cons.IH[of ?\<sigma>1] that
    have "r \<in> set (sent ?\<sigma>1) \<or> req_headers r = headers (self \<sigma>)" by (auto simp: self1)
    then show ?thesis by (auto simp: sent_perform dest: headers_perform)
  qed
  with Cons.IH[of ?\<sigma>1] self1 show ?case by auto
qed

subsection \<open>The default timeout\<close>

text \<open>
  Claim C10. In each of the four methods, a call that leaves the \<^verbatim>\<open>timeout\<close> argument out
  behaves as the call with \<^verbatim>\<open>timeout=5\<close>: the parameter defaults to
  \<^verbatim>\<open>DEFAULT_TIMEOUT_SECONDS\<close>, which is 5.
\<close>

theorem omitted_timeout_defaults_to_5:
  "DEFAULT_TIMEOUT_SECONDS = PInt 5
   \<and> arg_or_default None DEFAULT_TIMEOUT_SECONDS = PInt 5
   \<and> get serve key None \<sigma> = get serve key (Some (PInt 5)) \<sigma>
   \<and> post serve key d None \<sigma> = post serve key d (Some (PInt 5)) \<sigma>
   \<and> put serve key d None \<sigma> = put serve key d (Some (PInt 5)) \<sigma>
   \<and> delete serve key None \<sigma> = delete serve key (Some (PInt 5)) \<sigma>"
  by (simp add: DEFAULT_TIMEOUT_SECONDS_def arg_or_default_def get_def post_def put_def delete_def)

theorem omitted_timeout_defaults_to_5_witness:
  "delete unreachable ''notes'' None (start ''tok'' ())
     = delete unreachable ''notes'' (Some (PInt 5)) (start ''tok'' ())
   \<and> map req_timeout (issued (start ''tok'' ()) (delete unreachable ''notes'' None (start ''tok'' ())))
     = [Some (PInt 5)]"
proof -
  have "delete unreachable ''notes'' None (start ''tok'' ())
     = delete unreachable ''notes'' (Some (PInt 5)) (start ''tok'' ())"
    using omitted_timeout_defaults_to_5 [of unreachable "''notes''" "start ''tok'' ()"] by blast
  then show ?thesis
    by (simp add: issued_delete arg_or_default_def)
qed

subsection \<open>The URL of a request\<close>

text \<open>
  Claim C7. For a client constructed from \<open>token\<close>, \<^verbatim>\<open>__create_url(key)\<close> is the string
  \<^verbatim>\<open>'https://www.jsonstore.io/' + token + '/' + key\<close>, and that string is the URL of the one
  request each of the four methods makes (post and put make none when the data cannot be
  serialised).
\<close>

theorem request_url_is_base_slash_key:
  assumes "self \<sigma> = Client token"
  shows "create_url (self \<sigma>) key = ''https://www.jsonstore.io/'' @ token @ ''/'' @ key
       \<and> map req_url (issued \<sigma> (get serve key t \<sigma>))
           = [''https://www.jsonstore.io/'' @ token @ ''/'' @ key]
       \<and> map req_url (issued \<sigma> (delete serve key t \<sigma>))
           = [''https://www.jsonstore.io/'' @ token @ ''/'' @ key]
       \<and> map req_url (issued \<sigma> (post serve key d t \<sigma>))
           = (if serializable d then [''https://www.jsonstore.io/'' @ token @ ''/'' @ key] else [])
       \<and> map req_url (issued \<sigma> (put serve key d t \<sigma>))
           = (if serializable d then [''https://www.jsonstore.io/'' @ token @ ''/'' @ key] else [])"
proof -
  have url: "create_url (self \<sigma>) key = ''https://www.jsonstore.io/'' @ token @ ''/'' @ key"
    using assms by (simp add: create_url_def Client_def)
  have "map req_url (issued \<sigma> (post serve key d t \<sigma>))
          = (if serializable d then [create_url (self \<sigma>) key] else [])"
    by (auto simp: issued_post serializable_iff_dumps split: sum.splits)
  moreover have "map req_url (issued \<sigma> (put serve key d t \<sigma>))
          = (if serializable d then [create_url (self \<sigma>) key] else [])"
    by (auto simp: issued_put serializable_iff_dumps split: sum.splits)
  ultimately show ?thesis
    using url by (simp add: issued_get issued_delete)
qed

theorem request_url_is_base_slash_key_witness:
  "self (start ''tok'' ()) = Client ''tok''
   \<and> map req_url (issued (start ''tok'' ()) (get unreachable ''notes'' None (start ''tok'' ())))
       = [''https://www.jsonstore.io/tok/notes'']
   \<and> map req_url (issued (start ''tok'' ())
        (post unreachable ''notes'' (PList [PInt 1, PStr ''a'']) None (start ''tok'' ())))
       = [''https://www.jsonstore.io/tok/notes'']"
proof -
  have h: "self (start ''tok'' ()) = Client ''tok''" by (simp add: start_def)
  have s: "serializable (PList [PInt 1, PStr ''a''])" by simp
  from request_url_is_base_slash_key [OF h, of "''notes''" unreachable None "PList [PInt 1, PStr ''a'']"]
  show ?thesis using h s by simp
qed

subsection \<open>The headers, and the client object\<close>

text \<open>
  Claim C6. Whatever calls are made on a client constructed from \<open>token\<close>, and whatever the
  outside answers, the client object is afterwards as \<^verbatim>\<open>__init__\<close> made it (so its base
  URL and its headers are), and every request made carries exactly the two headers
  \<^verbatim>\<open>Accept: application/json\<close> and \<^verbatim>\<open>Content-type: application/json\<close>.
\<close>

theorem fixed_headers_on_every_request:
  "self (run serve cs (start token s)) = Client token
   \<and> base_url (self (run serve cs (start token s))) = ''https://www.jsonstore.io/'' @ token
   \<and> headers (self (run serve cs (start token s)))
       = [(''Accept'', ''application/json''), (''Content-type'', ''application/json'')]
   \<and> list_all (\<lambda>r. req_headers r
                      = [(''Accept'', ''application/json''), (''Content-type'', ''application/json'')])
        (sent (run serve cs (start token s)))"
proof -
  let ?\<sigma> = "start token s"
  have self0: "self ?\<sigma> = Client token" and sent0: "sent ?\<sigma> = []"
    by (simp_all add: start_def)
  from run_keeps_client [of serve cs ?\<sigma>]
  have "self (run serve cs ?\<sigma>) = Client token"
    and "\<forall>r \<in> set (sent (run serve cs ?\<sigma>)). req_headers r = headers (Client token)"
    by (simp_all add: self0 sent0)
  then show ?thesis
    by (simp add: list_all_iff Client_def)
qed

theorem fixed_headers_on_every_request_witness:
  "map req_headers
     (sent (run unreachable [Get ''a'' None, Post ''b'' (PInt 1) None, Delete ''a'' (Some (PInt 2))]
              (start ''tok'' ())))
   = [[(''Accept'', ''application/json''), (''Content-type'', ''application/json'')],
      [(''Accept'', ''application/json''), (''Content-type'', ''application/json'')],
      [(''Accept'', ''application/json''), (''Content-type'', ''application/json'')]]
   \<and> list_all (\<lambda>r. req_headers r
                      = [(''Accept'', ''application/json''), (''Content-type'', ''application/json'')])
        (sent (run unreachable [Get ''a'' None, Post ''b'' (PInt 1) None, Delete ''a'' (Some (PInt 2))]
                 (start ''tok'' ())))"
proof -
  have "map req_headers
     (sent (run unreachable [Get ''a'' None, Post ''b'' (PInt 1) None, Delete ''a'' (Some (PInt 2))]
              (start ''tok'' ())))
   = [[(''Accept'', ''application/json''), (''Content-type'', ''application/json'')],
      [(''Accept'', ''application/json''), (''Content-type'', ''application/json'')],
      [(''Accept'', ''application/json''), (''Content-type'', ''application/json'')]]"
    by (simp add: get_def post_def delete_def requests_call_def unreachable_def start_def
          Client_def Let_def)
  with fixed_headers_on_every_request
         [of unreachable "[Get ''a'' None, Post ''b'' (PInt 1) None, Delete ''a'' (Some (PInt 2))]"
             "''tok''" "()"]
  show ?thesis by blast
qed

subsection \<open>Which methods pass the timeout on\<close>

text \<open>
  Claim C2 says that \<^verbatim>\<open>get\<close> and \<^verbatim>\<open>delete\<close> both drop the timeout. \<^verbatim>\<open>delete\<close> does not:
  called with a timeout of 7 seconds, it hands 7 to \<^verbatim>\<open>requests.delete\<close>.
\<close>

theorem delete_passes_timeout_counterexample:
  "map req_timeout (issued (start ''tok'' ()) (delete unreachable ''notes'' (Some (PInt 7)) (start ''tok'' ())))
     = [Some (PInt 7)]
   \<and> map req_timeout (issued (start ''tok'' ()) (delete unreachable ''notes'' (Some (PInt 7)) (start ''tok'' ())))
     \<noteq> [None]"
  by (simp add: issued_delete arg_or_default_def)

text \<open>
  Claim C2, amended. \<^verbatim>\<open>get\<close> is the one method that does not pass the timeout on: its
  request has no timeout and its outcome is the same for every timeout argument.
  \<^verbatim>\<open>delete\<close>, \<^verbatim>\<open>post\<close> and \<^verbatim>\<open>put\<close> give the timeout (the argument or, without one, the
  default) to the request they make.
\<close>

theorem timeout_dropped_by_get_only:
  "map req_timeout (issued \<sigma> (get serve key t \<sigma>)) = [None]
   \<and> get serve key t \<sigma> = get serve key t' \<sigma>
   \<and> map req_timeout (issued \<sigma> (delete serve key t \<sigma>))
       = [Some (arg_or_default t DEFAULT_TIMEOUT_SECONDS)]
   \<and> map req_timeout (issued \<sigma> (post serve key d t \<sigma>))
       = (if serializable d then [Some (arg_or_default t DEFAULT_TIMEOUT_SECONDS)] else [])
   \<and> map req_timeout (issued \<sigma> (put serve key d t \<sigma>))
       = (if serializable d then [Some (arg_or_default t DEFAULT_TIMEOUT_SECONDS)] else [])"
proof -
  have "get serve key t \<sigma> = get serve key t' \<sigma>"
    by (simp add: get_def Let_def)
  moreover have "map req_timeout (issued \<sigma> (post serve key d t \<sigma>))
       = (if serializable d then [Some (arg_or_default t DEFAULT_TIMEOUT_SECONDS)] else [])"
    by (auto simp: issued_post serializable_iff_dumps split: sum.splits)
  moreover have "map req_timeout (issued \<sigma> (put serve key d t \<sigma>))
       = (if serializable d then [Some (arg_or_default t DEFAULT_TIMEOUT_SECONDS)] else [])"
    by (auto simp: issued_put serializable_iff_dumps split: sum.splits)
  ultimately show ?thesis
    by (simp add: issued_get issued_delete)
qed

theorem timeout_dropped_by_get_only_witness:
  "map req_timeout (issued (start ''tok'' ()) (get unreachable ''notes'' (Some (PInt 7)) (start ''tok'' ())))
     = [None]
   \<and> map req_timeout (issued (start ''tok'' ())
        (put unreachable ''notes'' (PStr ''x'') (Some (PInt 7)) (start ''tok'' ())))
     = [Some (PInt 7)]"
  using timeout_dropped_by_get_only
          [of "start ''tok'' ()" unreachable "''notes''" "Some (PInt 7)" "Some (PInt 7)" "PStr ''x''"]
  by (simp add: arg_or_default_def)

subsection \<open>Data that cannot be serialised\<close>

text \<open>
  Claim C9 says that \<^verbatim>\<open>post\<close> and \<^verbatim>\<open>put\<close> raise \<^verbatim>\<open>TypeError\<close> for every value that is
  not serializable. A list that contains itself (\<^verbatim>\<open>a = []; a.append(a)\<close>) is not
  serializable, and for it \<^verbatim>\<open>json.dumps\<close>, which stands before the \<^verbatim>\<open>try\<close>, raises
  \<^verbatim>\<open>ValueError\<close>: \<^verbatim>\<open>post\<close> and \<^verbatim>\<open>put\<close> raise \<^verbatim>\<open>ValueError\<close>, not \<^verbatim>\<open>TypeError\<close>, and make no
  request.
\<close>

theorem circular_data_raises_ValueError_counterexample:
  "well_scoped 0 (PList [PBackref 0])
   \<and> \<not> serializable (PList [PBackref 0])
   \<and> post (answering (envelope None)) ''notes'' (PList [PBackref 0]) None (start ''tok'' ())
       = (Inl ValueError, start ''tok'' ())
   \<and> put (answering (envelope None)) ''notes'' (PList [PBackref 0]) None (start ''tok'' ())
       = (Inl ValueError, start ''tok'' ())
   \<and> ValueError \<noteq> TypeError"
  by (simp add: post_def put_def Let_def)

text \<open>
  Claim C9, amended. When the data is not serializable, \<^verbatim>\<open>post\<close> and \<^verbatim>\<open>put\<close> raise the
  exception of \<^verbatim>\<open>json.dumps\<close> as it is, never \<^verbatim>\<open>JsonstoreError\<close>: \<^verbatim>\<open>TypeError\<close> when no
  container in the data contains itself, \<^verbatim>\<open>ValueError\<close> when every object in the data is of
  a supported type (so that a container that contains itself is what is wrong), and one
  of the two in every case. No HTTP request is made: the state, and with it the log of
  requests, is as before the call. Were \<^verbatim>\<open>json.dumps\<close> inside the \<^verbatim>\<open>try\<close>, the
  \<^verbatim>\<open>ValueError\<close> would come out as \<^verbatim>\<open>JsonstoreError\<close>.
\<close>

theorem unserializable_data_raises_unwrapped:
  assumes "\<not> serializable d"
  shows "\<exists>e. dumps d = Inl e
           \<and> (e = TypeError \<or> e = ValueError)
           \<and> (acyclic_val d \<longrightarrow> e = TypeError)
           \<and> (supported d \<longrightarrow> e = ValueError)
           \<and> post serve key d t \<sigma> = (Inl e, \<sigma>)
           \<and> put serve key d t \<sigma> = (Inl e, \<sigma>)
           \<and> issued \<sigma> (post serve key d t \<sigma>) = []
           \<and> issued \<sigma> (put serve key d t \<sigma>) = []"
proof -
  from dumps_not_serializable [OF assms] obtain e where e: "dumps d = Inl e" by blast
  have kind: "e = TypeError \<or> e = ValueError" by (rule dumps_Inl [OF e])
  have acyc: "acyclic_val d \<longrightarrow> e = TypeError" using dumps_Inl_acyclic e by blast
  have supp: "supported d \<longrightarrow> e = ValueError" using dumps_Inl_supported e by blast
  have calls: "post serve key d t \<sigma> = (Inl e, \<sigma>)" "put serve key d t \<sigma> = (Inl e, \<sigma>)"
    by (simp_all add: post_def put_def e Let_def)
  then have "issued \<sigma> (post serve key d t \<sigma>) = []" "issued \<sigma> (put serve key d t \<sigma>) = []"
    by (simp_all add: issued_def)
  with e kind acyc supp calls show ?thesis by blast
qed

theorem unserializable_data_raises_unwrapped_witness:
  "\<not> serializable (PDict [(''when'', PObject ''datetime'')])
   \<and> acyclic_val (PDict [(''when'', PObject ''datetime'')])
   \<and> post (answering (envelope None)) ''notes'' (PDict [(''when'', PObject ''datetime'')]) None
        (start ''tok'' ())
     = (Inl TypeError, start ''tok'' ())
   \<and> sent (snd (put (answering (envelope None)) ''notes'' (PDict [(''when'', PObject ''datetime'')])
                   None (start ''tok'' ())))
     = []"
proof -
  let ?d = "PDict [(''when'', PObject ''datetime'')]"
  let ?\<sigma> = "start ''tok'' ()"
  have h: "\<not> serializable ?d" by simp
  have a: "acyclic_val ?d" by simp
  from unserializable_data_raises_unwrapped
         [OF h, of "answering (envelope None)" "''notes''" None ?\<sigma>]
  obtain e where e: "acyclic_val ?d \<longrightarrow> e = TypeError"
    "post (answering (envelope None)) ''notes'' ?d None ?\<sigma> = (Inl e, ?\<sigma>)"
    "put (answering (envelope None)) ''notes'' ?d None ?\<sigma> = (Inl e, ?\<sigma>)"
    by blast
  from e(1) a have "e = TypeError" by blast
  with e(2,3) h a show ?thesis by (simp add: start_def)
qed

subsection \<open>The outcome of a method as a function of the answer\<close>

lemma fst_get:
  "fst (get serve key t \<sigma>) =
     except_clause
       (case fst (serve \<lparr>req_verb = GET, req_url = create_url (self \<sigma>) key,
                         req_headers = headers (self \<sigma>), req_data = None,
                         req_timeout = None\<rparr> (remote \<sigma>)) of
          Inl e \<Rightarrow> Inl e
        | Inr r \<Rightarrow>
            (case check_response (ResponseObj r) of
               Inl e \<Rightarrow> Inl e
             | Inr json_resp \<Rightarrow> subscript json_resp ''result''))"
  by (simp add: get_def requests_call_def Let_def split: prod.splits)

lemma fst_delete:
  "fst (delete serve key t \<sigma>) =
     except_clause
       (case fst (serve \<lparr>req_verb = DELETE, req_url = create_url (self \<sigma>) key,
                         req_headers = headers (self \<sigma>), req_data = None,
                         req_timeout = Some (arg_or_default t DEFAULT_TIMEOUT_SECONDS)\<rparr>
                    (remote \<sigma>)) of
          Inl e \<Rightarrow> Inl e
        | Inr r \<Rightarrow>
            (case check_response (ResponseObj r) of
               Inl e \<Rightarrow> Inl e
             | Inr json_resp \<Rightarrow> Inr PNone))"
  by (simp add: delete_def requests_call_def Let_def split: prod.splits)

lemma fst_post:
  "dumps d = Inr j \<Longrightarrow>
   fst (post serve key d t \<sigma>) =
     except_clause
       (case fst (serve \<lparr>req_verb = POST, req_url = create_url (self \<sigma>) key,
                         req_headers = headers (self \<sigma>), req_data = Some j,
                         req_timeout = Some (arg_or_default t DEFAULT_TIMEOUT_SECONDS)\<rparr>
                    (remote \<sigma>)) of
          Inl e \<Rightarrow> Inl e
        | Inr r \<Rightarrow>
            (case check_response (ResponseObj r) of
               Inl e \<Rightarrow> Inl e
             | Inr json_resp \<Rightarrow> Inr PNone))"
  by (simp add: post_def requests_call_def Let_def split: prod.splits)

lemma fst_put:
  "dumps d = Inr j \<Longrightarrow>
   fst (put serve key d t \<sigma>) =
     except_clause
       (case fst (serve \<lparr>req_verb = PUT, req_url = create_url (self \<sigma>) key,
                         req_headers = headers (self \<sigma>), req_data = Some j,
                         req_timeout = Some (arg_or_default t DEFAULT_TIMEOUT_SECONDS)\<rparr>
                    (remote \<sigma>)) of
          Inl e \<Rightarrow> Inl e
        | Inr r \<Rightarrow>
            (case check_response (ResponseObj r) of
               Inl e \<Rightarrow> Inl e
             | Inr json_resp \<Rightarrow> Inr PNone))"
  by (simp add: put_def requests_call_def Let_def split: prod.splits)

text \<open>
  When the check of the response raises an exception of one of the three classes of the
  handler, each method raises \<^verbatim>\<open>JsonstoreError\<close>.
\<close>

lemma caught_check_raises_JsonstoreError:
  assumes answer: "\<And>req. fst (serve req (remote \<sigma>)) = Inr r"
    and check: "check_response (ResponseObj r) = Inl e"
    and caught: "e = RequestException \<or> e = ValueError \<or> e = KeyError \<or> e = JsonstoreError"
  shows "fst (get serve key t \<sigma>) = Inl JsonstoreError
       \<and> fst (delete serve key t \<sigma>) = Inl JsonstoreError
       \<and> (serializable d \<longrightarrow> fst (post serve key d t \<sigma>) = Inl JsonstoreError)
       \<and> (serializable d \<longrightarrow> fst (put serve key d t \<sigma>) = Inl JsonstoreError)"
proof -
  have g: "fst (get serve key t \<sigma>) = Inl JsonstoreError"
    using caught by (auto simp: fst_get answer check)
  have x: "fst (delete serve key t \<sigma>) = Inl JsonstoreError"
    using caught by (auto simp: fst_delete answer check)
  have p: "fst (post serve key d t \<sigma>) = Inl JsonstoreError" if "serializable d"
  proof -
    from that obtain j where "dumps d = Inr j" using dumps_serializable by blast
    then show ?thesis using caught by (auto simp: fst_post answer check)
  qed
  have u: "fst (put serve key d t \<sigma>) = Inl JsonstoreError" if "serializable d"
  proof -
    from that obtain j where "dumps d = Inr j" using dumps_serializable by blast
    then show ?thesis using caught by (auto simp: fst_put answer check)
  qed
  from g x p u show ?thesis by blast
qed

text \<open>
  No method lets an exception of the three classes of its handler out of the \<^verbatim>\<open>try\<close>:
  what leaves the \<^verbatim>\<open>try\<close> is \<^verbatim>\<open>JsonstoreError\<close> or \<^verbatim>\<open>TypeError\<close>. The one other exception
  that leaves a method is the \<^verbatim>\<open>ValueError\<close> that \<^verbatim>\<open>json.dumps\<close> raised, before the \<^verbatim>\<open>try\<close>
  of \<^verbatim>\<open>post\<close> or \<^verbatim>\<open>put\<close>.
\<close>

lemma except_clause_range:
  "except_clause x = Inl e \<Longrightarrow> e = JsonstoreError \<or> e = TypeError"
  by (cases x rule: except_clause.cases) auto

lemma perform_raises:
  assumes "fst (perform serve c \<sigma>) = Inl e"
  shows "e = JsonstoreError \<or> e = TypeError
       \<or> (e = ValueError
          \<and> (\<exists>key d t. (c = Post key d t \<or> c = Put key d t) \<and> dumps d = Inl ValueError))"
proof (cases c)
  case (Get key t)
  with assms have "e = JsonstoreError \<or> e = TypeError"
    by (auto simp: fst_get dest: except_clause_range)
  then show ?thesis by blast
next
  case (Delete key t)
  with assms have "e = JsonstoreError \<or> e = TypeError"
    by (auto simp: fst_delete dest: except_clause_range)
  then show ?thesis by blast
next
  case (Post key d t)
  show ?thesis
  proof (cases "dumps d")
    case (Inl e')
    with assms Post have "e' = e" by (simp add: post_def Let_def)
    with Inl have d: "dumps d = Inl e" by simp
    from dumps_Inl [OF d] show ?thesis using d Post by blast
  next
    case (Inr j)
    with assms Post have "e = JsonstoreError \<or> e = TypeError"
      by (auto simp: fst_post dest: except_clause_range)
    then show ?thesis by blast
  qed
next
  case (Put key d t)
  show ?thesis
  proof (cases "dumps d")
    case (Inl e')
    with assms Put have "e' = e" by (simp add: put_def Let_def)
    with Inl have d: "dumps d = Inl e" by simp
    from dumps_Inl [OF d] show ?thesis using d Put by blast
  next
    case (Inr j)
    with assms Put have "e = JsonstoreError \<or> e = TypeError"
      by (auto simp: fst_put dest: except_clause_range)
    then show ?thesis by blast
  qed
qed

subsection \<open>A body that is no JSON document\<close>

lemma check_response_malformed:
  "content r = None \<Longrightarrow>
   check_response (ResponseObj r) = Inl RequestException \<or> check_response (ResponseObj r) = Inl ValueError"
  by (simp add: check_response_def raise_for_status_def response_json_def)

text \<open>
  Claim C5. When the response to the request has a body that is no JSON document, each of
  the four methods raises \<^verbatim>\<open>JsonstoreError\<close> (for post and put: once the data was
  serialised, so that the request is made). And whatever the outside does, the
  \<^verbatim>\<open>ValueError\<close> of the parser never leaves a method: a call that ends in \<^verbatim>\<open>ValueError\<close>
  is a \<^verbatim>\<open>post\<close> or \<^verbatim>\<open>put\<close> whose data \<^verbatim>\<open>json.dumps\<close> rejected with that exception, before
  any request was made.
\<close>

theorem malformed_body_raises_JsonstoreError:
  assumes "\<And>req. fst (serve req (remote \<sigma>)) = Inr r" and "content r = None"
  shows "fst (get serve key t \<sigma>) = Inl JsonstoreError
       \<and> fst (delete serve key t \<sigma>) = Inl JsonstoreError
       \<and> (serializable d \<longrightarrow> fst (post serve key d t \<sigma>) = Inl JsonstoreError)
       \<and> (serializable d \<longrightarrow> fst (put serve key d t \<sigma>) = Inl JsonstoreError)
       \<and> (fst (perform any_service c \<sigma>') = Inl ValueError \<longrightarrow>
            (\<exists>key' d' t'. (c = Post key' d' t' \<or> c = Put key' d' t')
                           \<and> dumps d' = Inl ValueError))"
proof -
  from check_response_malformed [OF assms(2)]
  obtain e where e: "check_response (ResponseObj r) = Inl e" "e = RequestException \<or> e = ValueError"
    by blast
  then have caught: "e = RequestException \<or> e = ValueError \<or> e = KeyError \<or> e = JsonstoreError"
    by blast
  have "fst (perform any_service c \<sigma>') = Inl ValueError \<longrightarrow>
          (\<exists>key' d' t'. (c = Post key' d' t' \<or> c = Put key' d' t')
                         \<and> dumps d' = Inl ValueError)"
    using perform_raises [of any_service c \<sigma>' ValueError] by auto
  with caught_check_raises_JsonstoreError
         [where serve = serve and \<sigma> = \<sigma> and r = r and e = e, OF assms(1) e(1) caught]
  show ?thesis by blast
qed

theorem malformed_body_raises_JsonstoreError_witness:
  "content \<lparr>status_code = 200, content = None\<rparr> = None
   \<and> serializable (PInt 1)
   \<and> fst (get (answering \<lparr>status_code = 200, content = None\<rparr>) ''notes'' None (start ''tok'' ()))
       = Inl JsonstoreError
   \<and> fst (post (answering \<lparr>status_code = 200, content = None\<rparr>) ''notes'' (PInt 1) None (start ''tok'' ()))
       = Inl JsonstoreError"
proof -
  have a: "\<And>req. fst (answering \<lparr>status_code = 200, content = None\<rparr> req (remote (start ''tok'' ())))
             = Inr \<lparr>status_code = 200, content = None\<rparr>"
    by (simp add: answering_def)
  have b: "content \<lparr>status_code = 200, content = None\<rparr> = None" by simp
  from malformed_body_raises_JsonstoreError
         [where serve = "answering \<lparr>status_code = 200, content = None\<rparr>"
            and \<sigma> = "start ''tok'' ()" and r = "\<lparr>status_code = 200, content = None\<rparr>"
            and key = "''notes''" and t = None and d = "PInt 1"
            and any_service = "answering \<lparr>status_code = 200, content = None\<rparr>"
            and c = "Get ''notes'' None" and \<sigma>' = "start ''tok'' ()", OF a b]
  show ?thesis by simp
qed

subsection \<open>The HTTP status\<close>

text \<open>
  Claim C4 says that every status outside 200 to 299 makes the method raise. A response
  with status 300 (not 2xx) and a body with \<^verbatim>\<open>ok\<close> true is accepted: \<^verbatim>\<open>post\<close> returns
  \<^verbatim>\<open>None\<close> and \<^verbatim>\<open>get\<close> returns the result.
\<close>

theorem status_300_accepted_counterexample:
  "\<not> (200 \<le> status_code \<lparr>status_code = 300, content = Some (JObject [(''ok'', JBool True)])\<rparr>
       \<and> status_code \<lparr>status_code = 300, content = Some (JObject [(''ok'', JBool True)])\<rparr> < 300)
   \<and> fst (post (answering \<lparr>status_code = 300, content = Some (JObject [(''ok'', JBool True)])\<rparr>)
            ''notes'' (PInt 1) None (start ''tok'' ()))
       = Inr PNone
   \<and> fst (get (answering \<lparr>status_code = 300,
                             content = Some (JObject [(''ok'', JBool True), (''result'', JInt 1)])\<rparr>)
            ''notes'' None (start ''tok'' ()))
       = Inr (PInt 1)"
  by (simp add: fst_post fst_get answering_def check_response_def raise_for_status_def
        response_json_def dict_of_def)

lemma check_response_http_error:
  "400 \<le> status_code r \<Longrightarrow> status_code r < 600 \<Longrightarrow>
   check_response (ResponseObj r) = Inl RequestException"
  by (simp add: check_response_def raise_for_status_def)

text \<open>
  Claim C4, amended. A response with a client-error or server-error status (400 to 599)
  makes each of the four methods raise \<^verbatim>\<open>JsonstoreError\<close>, whatever its body (for post and
  put: once the data was serialised, so that the request is made).
\<close>

theorem http_error_status_raises_JsonstoreError:
  assumes "\<And>req. fst (serve req (remote \<sigma>)) = Inr r"
    and "400 \<le> status_code r" and "status_code r < 600"
  shows "fst (get serve key t \<sigma>) = Inl JsonstoreError
       \<and> fst (delete serve key t \<sigma>) = Inl JsonstoreError
       \<and> (serializable d \<longrightarrow> fst (post serve key d t \<sigma>) = Inl JsonstoreError)
       \<and> (serializable d \<longrightarrow> fst (put serve key d t \<sigma>) = Inl JsonstoreError)"
  using caught_check_raises_JsonstoreError
          [where serve = serve and \<sigma> = \<sigma> and r = r and e = RequestException,
           OF assms(1) check_response_http_error [OF assms(2,3)]]
  by blast

theorem http_error_status_raises_JsonstoreError_witness:
  "400 \<le> status_code (envelope (Some (JInt 1))\<lparr>status_code := 404\<rparr>)
   \<and> status_code (envelope (Some (JInt 1))\<lparr>status_code := 404\<rparr>) < 600
   \<and> serializable (PInt 1)
   \<and> fst (get (answering (envelope (Some (JInt 1))\<lparr>status_code := 404\<rparr>)) ''notes'' None
            (start ''tok'' ()))
       = Inl JsonstoreError
   \<and> fst (put (answering (envelope (Some (JInt 1))\<lparr>status_code := 404\<rparr>)) ''notes'' (PInt 1) None
            (start ''tok'' ()))
       = Inl JsonstoreError"
proof -
  let ?r = "envelope (Some (JInt 1))\<lparr>status_code := 404\<rparr>"
  have a: "\<And>req. fst (answering ?r req (remote (start ''tok'' ()))) = Inr ?r"
    by (simp add: answering_def)
  have b: "400 \<le> status_code ?r" and c: "status_code ?r < 600"
    by (simp_all add: envelope_def)
  from http_error_status_raises_JsonstoreError
         [where serve = "answering ?r" and \<sigma> = "start ''tok'' ()" and r = ?r
            and key = "''notes''" and t = None and d = "PInt 1", OF a b c]
  show ?thesis using b c by simp
qed

subsection \<open>The network call fails\<close>

text \<open>
  When the call of the requests library raises a \<^verbatim>\<open>RequestException\<close> (connection error,
  timeout), each method raises \<^verbatim>\<open>JsonstoreError\<close>.
\<close>

lemma request_failure_raises_JsonstoreError:
  assumes answer: "\<And>req. fst (serve req (remote \<sigma>)) = Inl RequestException"
  shows "fst (get serve key t \<sigma>) = Inl JsonstoreError
       \<and> fst (delete serve key t \<sigma>) = Inl JsonstoreError
       \<and> (serializable d \<longrightarrow> fst (post serve key d t \<sigma>) = Inl JsonstoreError)
       \<and> (serializable d \<longrightarrow> fst (put serve key d t \<sigma>) = Inl JsonstoreError)"
proof -
  have "fst (post serve key d t \<sigma>) = Inl JsonstoreError
      \<and> fst (put serve key d t \<sigma>) = Inl JsonstoreError" if "serializable d"
  proof -
    from that obtain j where "dumps d = Inr j" using dumps_serializable by blast
    then show ?thesis by (simp add: fst_post fst_put answer)
  qed
  then show ?thesis by (simp add: fst_get fst_delete answer)
qed

subsection \<open>The success indicator\<close>

text \<open>
  What \<^verbatim>\<open>__check_response\<close> does with a body that is a JSON object, so that
  \<^verbatim>\<open>response.json()\<close> is a dict: the status is checked first, then the key \<^verbatim>\<open>ok\<close>.
\<close>

lemma check_response_dict:
  assumes "response_json r = Inr (PDict kvs)"
  shows "check_response (ResponseObj r) =
           (if 400 \<le> status_code r \<and> status_code r < 600 then Inl RequestException
            else case map_of kvs ''ok'' of
                   None \<Rightarrow> Inl JsonstoreError
                 | Some ok \<Rightarrow> if truthy ok then Inr (PDict kvs) else Inl JsonstoreError)"
proof (cases "map_of kvs ''ok''")
  case None
  then have "''ok'' \<notin> fst ` set kvs" by (simp add: map_of_eq_None_iff)
  with None assms show ?thesis
    by (simp add: check_response_def raise_for_status_def)
next
  case (Some ok)
  then have "''ok'' \<in> fst ` set kvs" by (metis map_of_eq_None_iff option.distinct(1))
  with Some assms show ?thesis
    by (simp add: check_response_def raise_for_status_def)
qed

text \<open>
  The part of claim C3 that the code keeps: a body that is a JSON object without the key
  \<^verbatim>\<open>ok\<close>, or with a value of \<^verbatim>\<open>ok\<close> that Python takes for false, makes each method raise
  \<^verbatim>\<open>JsonstoreError\<close>, whatever the status.
\<close>

lemma object_without_ok_raises_JsonstoreError:
  assumes answer: "\<And>req. fst (serve req (remote \<sigma>)) = Inr r"
    and body: "response_json r = Inr (PDict kvs)"
    and not_ok: "case map_of kvs ''ok'' of None \<Rightarrow> True | Some ok \<Rightarrow> \<not> truthy ok"
  shows "fst (get serve key t \<sigma>) = Inl JsonstoreError
       \<and> fst (delete serve key t \<sigma>) = Inl JsonstoreError
       \<and> (serializable d \<longrightarrow> fst (post serve key d t \<sigma>) = Inl JsonstoreError)
       \<and> (serializable d \<longrightarrow> fst (put serve key d t \<sigma>) = Inl JsonstoreError)"
proof -
  from not_ok have
    "check_response (ResponseObj r) = Inl RequestException
     \<or> check_response (ResponseObj r) = Inl JsonstoreError"
    by (simp add: check_response_dict [OF body] split: option.splits)
  then obtain e where
    "check_response (ResponseObj r) = Inl e"
    "e = RequestException \<or> e = ValueError \<or> e = KeyError \<or> e = JsonstoreError"
    by blast
  then show ?thesis
    using caught_check_raises_JsonstoreError
            [where serve = serve and \<sigma> = \<sigma> and r = r and e = e, OF answer]
    by blast
qed

text \<open>
  The part of claim C1 that the code keeps: what \<^verbatim>\<open>get\<close> does when the body is a JSON
  object.
\<close>

lemma get_on_object_body:
  assumes answer: "\<And>req. fst (serve req (remote \<sigma>)) = Inr r"
    and body: "response_json r = Inr (PDict kvs)"
  shows "fst (get serve key t \<sigma>) =
           (if 400 \<le> status_code r \<and> status_code r < 600 then Inl JsonstoreError
            else case map_of kvs ''ok'' of
                   None \<Rightarrow> Inl JsonstoreError
                 | Some ok \<Rightarrow>
                     if truthy ok
                     then (case map_of kvs ''result'' of
                             None \<Rightarrow> Inl JsonstoreError
                           | Some v \<Rightarrow> Inr v)
                     else Inl JsonstoreError)"
  by (simp add: fst_get answer check_response_dict [OF body] split: option.splits)

text \<open>
  Claim C1 fails on the code where the body is a JSON document that is not an object. The
  body \<^verbatim>\<open>null\<close> with status 200 has no \<^verbatim>\<open>ok\<close>, and \<^verbatim>\<open>get\<close> raises \<^verbatim>\<open>TypeError\<close>, not
  \<^verbatim>\<open>JsonstoreError\<close>: \<^verbatim>\<open>'ok' not in None\<close> raises it, and the handler does not name it.
  The same holds for the body \<^verbatim>\<open>"ok"\<close>, where \<^verbatim>\<open>resp['ok']\<close> raises it.
\<close>

theorem get_null_body_raises_TypeError:
  "fst (get (answering \<lparr>status_code = 200, content = Some JNull\<rparr>) ''notes'' None (start ''tok'' ()))
     = Inl TypeError
   \<and> fst (get (answering \<lparr>status_code = 200, content = Some (JString ''ok'')\<rparr>) ''notes'' None
            (start ''tok'' ()))
     = Inl TypeError"
  by (simp add: fst_get answering_def check_response_def raise_for_status_def response_json_def)

text \<open>
  Claim C3 fails on the code in the same way, for all four methods: the body \<^verbatim>\<open>5\<close> with
  status 200 has no \<^verbatim>\<open>ok\<close> field, and each method raises \<^verbatim>\<open>TypeError\<close>, not
  \<^verbatim>\<open>JsonstoreError\<close>.
\<close>

theorem number_body_raises_TypeError:
  "fst (get (answering \<lparr>status_code = 200, content = Some (JInt 5)\<rparr>) ''notes'' None (start ''tok'' ()))
     = Inl TypeError
   \<and> fst (post (answering \<lparr>status_code = 200, content = Some (JInt 5)\<rparr>) ''notes'' (PInt 1) None
            (start ''tok'' ()))
     = Inl TypeError
   \<and> fst (put (answering \<lparr>status_code = 200, content = Some (JInt 5)\<rparr>) ''notes'' (PInt 1) None
            (start ''tok'' ()))
     = Inl TypeError
   \<and> fst (delete (answering \<lparr>status_code = 200, content = Some (JInt 5)\<rparr>) ''notes'' None
            (start ''tok'' ()))
     = Inl TypeError"
  by (simp add: fst_get fst_post fst_put fst_delete answering_def check_response_def
        raise_for_status_def response_json_def)

subsection \<open>The round trip through the store\<close>

lemma update_fresh: "k \<notin> fst ` set al \<Longrightarrow> AList.update k v al = al @ [(k, v)]"
  by (induction al) auto

lemma foldl_update_distinct:
  "distinct (map fst (acc @ kvs)) \<Longrightarrow>
   foldl (\<lambda>d (k, v). AList.update k v d) acc kvs = acc @ kvs"
proof (induction kvs arbitrary: acc)
  case Nil
  show ?case by simp
next
  case (Cons kv kvs)
  obtain k v where kv: "kv = (k, v)" by (cases kv)
  from Cons.prems kv have fresh: "k \<notin> fst ` set acc" by auto
  from Cons.prems kv have "distinct (map fst ((acc @ [(k, v)]) @ kvs))" by simp
  from Cons.IH [OF this] show ?case
    by (simp add: kv update_fresh [OF fresh])
qed

lemma dict_of_distinct: "distinct (map fst kvs) \<Longrightarrow> dict_of kvs = kvs"
  using foldl_update_distinct [of "[]" kvs] by (simp add: dict_of_def)

lemma sequence_inverse:
  "(\<And>x. x \<in> set xs \<Longrightarrow> \<exists>y. f x = Inr y \<and> g y = x) \<Longrightarrow>
   \<exists>ys. sequence (map f xs) = Inr ys \<and> map g ys = xs"
proof (induction xs)
  case Nil
  show ?case by simp
next
  case (Cons x xs)
  from Cons.prems obtain y where y: "f x = Inr y" "g y = x" by auto
  from Cons obtain ys where ys: "sequence (map f xs) = Inr ys" "map g ys = xs" by auto
  show ?case by (simp add: y ys)
qed

text \<open>Writing a value without tuples and reading the document back gives the value.\<close>

lemma loads_dumps: "json_native v \<Longrightarrow> \<exists>j. dumps v = Inr j \<and> loads j = v"
proof (induction v)
  case (PList xs)
  then have "\<exists>js. sequence (map dumps xs) = Inr js \<and> map loads js = xs"
    by (intro sequence_inverse) (auto simp: list_all_iff)
  then show ?case by auto
next
  case (PDict kvs)
  let ?f = "\<lambda>(k, v). map_sum id (Pair k) (dumps v)"
  let ?g = "\<lambda>(k, j). (k, loads j)"
  from PDict have "\<exists>kjs. sequence (map ?f kvs) = Inr kjs \<and> map ?g kjs = kvs"
    by (intro sequence_inverse) (fastforce simp: list_all_iff)
  then obtain kjs where kjs: "sequence (map ?f kvs) = Inr kjs" "map ?g kjs = kvs" by blast
  from PDict.prems have "distinct (map fst kvs)" by simp
  then show ?case by (simp add: kjs dict_of_distinct)
qed auto

text \<open>
  Claim C8 says that every serializable value comes back from the store. A tuple is
  serializable, is stored as an array, and comes back as a list, which is not the tuple.
\<close>

theorem tuple_comes_back_as_list_counterexample:
  "serializable (PTuple [PInt 1, PInt 2])
   \<and> fst (post faithful_store ''notes'' (PTuple [PInt 1, PInt 2]) None (start ''tok'' Map.empty))
       = Inr PNone
   \<and> fst (get faithful_store ''notes'' None
            (snd (post faithful_store ''notes'' (PTuple [PInt 1, PInt 2]) None
                    (start ''tok'' Map.empty))))
       = Inr (PList [PInt 1, PInt 2])
   \<and> PList [PInt 1, PInt 2] \<noteq> PTuple [PInt 1, PInt 2]"
  by (simp add: post_def get_def requests_call_def faithful_store_def envelope_def start_def
        Client_def create_url_def check_response_def raise_for_status_def response_json_def
        dict_of_def Let_def)

text \<open>
  Claim C8, amended. For every value built from \<^verbatim>\<open>None\<close>, booleans, integers, finite
  floats, strings, lists and dicts, without a tuple: against a service that stores what is
  sent and returns it, \<^verbatim>\<open>post(key, value)\<close> succeeds and the \<^verbatim>\<open>get(key)\<close> after it returns
  the value.
\<close>

theorem post_then_get_returns_value:
  assumes "json_native v"
  shows "fst (post faithful_store key v t \<sigma>) = Inr PNone
       \<and> fst (get faithful_store key t' (snd (post faithful_store key v t \<sigma>))) = Inr v"
proof -
  from loads_dumps [OF assms] obtain j where j: "dumps v = Inr j" "loads j = v" by blast
  have posted: "post faithful_store key v t \<sigma> =
      (Inr PNone,
       \<sigma>\<lparr>sent := sent \<sigma> @
              [\<lparr>req_verb = POST, req_url = create_url (self \<sigma>) key,
                req_headers = headers (self \<sigma>), req_data = Some j,
                req_timeout = Some (arg_or_default t DEFAULT_TIMEOUT_SECONDS)\<rparr>],
          remote := (remote \<sigma>)(create_url (self \<sigma>) key \<mapsto> j)\<rparr>)"
    by (simp add: post_def j requests_call_def faithful_store_def envelope_def
          check_response_def raise_for_status_def response_json_def dict_of_def Let_def)
  have "fst (get faithful_store key t' (snd (post faithful_store key v t \<sigma>))) = Inr v"
    by (simp add: posted fst_get faithful_store_def envelope_def check_response_def
          raise_for_status_def response_json_def dict_of_def j)
  with posted show ?thesis by simp
qed

theorem post_then_get_returns_value_witness:
  "json_native (PDict [(''name'', PStr ''Ada''), (''tags'', PList [PInt 1, PNone])])
   \<and> fst (get faithful_store ''notes'' None
            (snd (post faithful_store ''notes''
                    (PDict [(''name'', PStr ''Ada''), (''tags'', PList [PInt 1, PNone])]) None
                    (start ''tok'' Map.empty))))
       = Inr (PDict [(''name'', PStr ''Ada''), (''tags'', PList [PInt 1, PNone])])"
proof -
  have h: "json_native (PDict [(''name'', PStr ''Ada''), (''tags'', PList [PInt 1, PNone])])"
    by simp
  from post_then_get_returns_value [OF h, of "''notes''" None "start ''tok'' Map.empty" None]
  show ?thesis using h by blast
qed

end
